theory Spec2Isabelle
  imports Main
begin

section \<open>Data model of \<^verbatim>\<open>h1.go\<close>\<close>

text \<open>
  A Go \<^verbatim>\<open>error\<close> is represented by its message (the value of \<^verbatim>\<open>err.Error()\<close>,
  which is what \<^verbatim>\<open>%v\<close> prints); \<^verbatim>\<open>nil\<close> is \<open>None\<close> of \<open>error option\<close>.
  A Go \<^verbatim>\<open>string\<close> and a \<^verbatim>\<open>[]byte\<close> are byte sequences: \<open>string\<close>. A \<^verbatim>\<open>nil\<close> slice
  and an empty one are both the empty list (the code only appends to slices, takes
  their length and ranges over them).
\<close>

type_synonym error = string

record H1Client =
  Username :: string
  APIToken :: string
  BaseURL :: string
  RateLimitDelay :: int \<comment> \<open>a \<^verbatim>\<open>time.Duration\<close>: nanoseconds\<close>

record ProgramAttributes =
  Handle :: string
  Name :: string
  Currency :: string
  Policy :: string
  State :: string
  OffersBounties :: bool
  OpenScope :: bool

record Program =
  ID :: string
  Type :: string
  Attributes :: ProgramAttributes

text \<open>
  \<^verbatim>\<open>Links map[string]string\<close>: a map; the \<^verbatim>\<open>nil\<close> map that decoding leaves when the
  body has no \<^verbatim>\<open>"links"\<close> member reads like the empty map (\<open>Map.empty\<close>).
\<close>

record ProgramsResponse =
  Data :: "Program list"
  Links :: "string \<rightharpoonup> string"

text \<open>
  The scope and weakness structs repeat the field names \<^verbatim>\<open>ID\<close>, \<^verbatim>\<open>Type\<close>, \<^verbatim>\<open>Attributes\<close>,
  \<^verbatim>\<open>Data\<close>, \<^verbatim>\<open>Links\<close> and \<^verbatim>\<open>Name\<close>; a record field is a constant, so they carry a
  suffix here (\<open>_s\<close> for scopes, \<open>_w\<close> for weaknesses).
\<close>

record StructuredScopeAttributes =
  AssetType :: string
  AssetIdentifier :: string
  EligibleForBounty :: bool
  EligibleForSubmission :: bool
  Instruction :: string
  MaxSeverity :: string

record StructuredScope =
  ID_s :: string
  Type_s :: string
  Attributes_s :: StructuredScopeAttributes

record StructuredScopesResponse =
  Data_s :: "StructuredScope list"
  Links_s :: "string \<rightharpoonup> string"

record WeaknessAttributes =
  Name_w :: string
  Description :: string
  ExternalID :: string

record Weakness =
  ID_w :: string
  Type_w :: string
  Attributes_w :: WeaknessAttributes

record WeaknessesResponse =
  Data_w :: "Weakness list"
  Links_w :: "string \<rightharpoonup> string"

subsection \<open>The HTTP boundary\<close>

record http_request =
  Method :: string
  URL :: string
  Header :: "(string \<times> string) list"
  BasicAuth :: "(string \<times> string) option"

text \<open>
  \<open>Body\<close> is what \<^verbatim>\<open>ioutil.ReadAll(resp.Body)\<close> returns when it is called: the bytes
  read and the read error, if any.
\<close>

record http_response =
  StatusCode :: int
  Status :: string
  Body :: "string \<times> error option"

text \<open>The effects of the program on the outside, in the order they happen.\<close>

datatype event =
    Stdout string
  | HTTPDo http_request
  | ReadBody
  | CloseBody
  | Sleep int
  | Fatal string
  | FileWrite string string

text \<open>
  The standard library and the network are parameters of the model. \<open>'w\<close> is the state
  of the outside world (the server, the file system); a call that talks to it returns
  the new state.
  \<^item> \<open>NewRequest method url\<close>: the error of \<^verbatim>\<open>http.NewRequest\<close> (a method or URL it
    refuses), or \<open>None\<close>;
  \<^item> \<open>Do w req\<close>: \<^verbatim>\<open>client.Do(req)\<close>, a transport error or a response;
  \<^item> \<open>UnmarshalPrograms body\<close>: \<^verbatim>\<open>json.Unmarshal\<close> into a fresh \<^verbatim>\<open>ProgramsResponse\<close>; likewise
    \<open>UnmarshalScopes\<close>, \<open>UnmarshalWeaknesses\<close>, and \<open>UnmarshalProgram\<close> for the struct
    with the one field \<^verbatim>\<open>Data Program\<close>;
  \<^item> \<open>MarshalIndent programs prefix indent\<close>: \<^verbatim>\<open>json.MarshalIndent\<close>;
  \<^item> \<open>WriteFile w filename data perm\<close>: \<^verbatim>\<open>ioutil.WriteFile\<close> (the mode \<^verbatim>\<open>0644\<close> is 420);
  \<^item> \<open>UnicodeToLower\<close>: what \<^verbatim>\<open>strings.ToLower\<close> does to a string that is not ASCII only.
\<close>

record 'w platform =
  NewRequest :: "string \<Rightarrow> string \<Rightarrow> error option"
  Do :: "'w \<Rightarrow> http_request \<Rightarrow> (error + http_response) \<times> 'w"
  UnmarshalPrograms :: "string \<Rightarrow> error + ProgramsResponse"
  UnmarshalScopes :: "string \<Rightarrow> error + StructuredScopesResponse"
  UnmarshalWeaknesses :: "string \<Rightarrow> error + WeaknessesResponse"
  UnmarshalProgram :: "string \<Rightarrow> error + Program"
  MarshalIndent :: "Program list \<Rightarrow> string \<Rightarrow> string \<Rightarrow> error + string"
  WriteFile :: "'w \<Rightarrow> string \<Rightarrow> string \<Rightarrow> nat \<Rightarrow> error option \<times> 'w"
  UnicodeToLower :: "string \<Rightarrow> string"

abbreviation LF :: string where
  "LF \<equiv> [CHR 0x0A]"

section \<open>The API client\<close>

definition NewH1Client :: "string \<Rightarrow> string \<Rightarrow> H1Client" where
  "NewH1Client username token =
     \<lparr>Username = username, APIToken = token,
      BaseURL = ''https://api.hackerone.com/v1/hackers'',
      RateLimitDelay = 100 * 1000000\<rparr>"

text \<open>
  \<^verbatim>\<open>makeRequest\<close> returns Go's pair \<^verbatim>\<open>([]byte, error)\<close>, the new state of the world and
  the events of the call.
\<close>

definition makeRequest ::
  "'w platform \<Rightarrow> H1Client \<Rightarrow> 'w \<Rightarrow> string \<Rightarrow> string
     \<Rightarrow> (string \<times> error option) \<times> 'w \<times> event list" where
  "makeRequest P c w method endpoint =
     (let url = BaseURL c @ endpoint in
      case NewRequest P method url of
        Some err \<Rightarrow> (([], Some err), w, [])
      | None \<Rightarrow>
          (let req = \<lparr>Method = method, URL = url,
                      Header = [(''Accept'', ''application/json'')],
                      BasicAuth = Some (Username c, APIToken c)\<rparr> in
           case Do P w req of
             (Inl err, w') \<Rightarrow> (([], Some err), w', [HTTPDo req])
           | (Inr resp, w') \<Rightarrow>
               if StatusCode resp \<noteq> 200
               then (([], Some (''API request failed with status: '' @ Status resp)),
                     w', [HTTPDo req, CloseBody])
               else (case Body resp of
                       (body, Some err) \<Rightarrow> (([], Some err), w', [HTTPDo req, ReadBody, CloseBody])
                     | (body, None) \<Rightarrow> ((body, None), w', [HTTPDo req, ReadBody, CloseBody]))))"

section \<open>The paginated collector\<close>

text \<open>\<^verbatim>\<open>%d\<close> of a non-negative integer.\<close>

fun itoa :: "nat \<Rightarrow> string" where
  "itoa n = (if n < 10 then [''0123456789'' ! n]
             else itoa (n div 10) @ [''0123456789'' ! (n mod 10)])"

declare itoa.simps [simp del]

text \<open>\<^verbatim>\<open>strings.HasPrefix\<close> and \<^verbatim>\<open>strings.TrimPrefix\<close>, on bytes.\<close>

definition HasPrefix :: "string \<Rightarrow> string \<Rightarrow> bool" where
  "HasPrefix s pre = (length pre \<le> length s \<and> take (length pre) s = pre)"

definition TrimPrefix :: "string \<Rightarrow> string \<Rightarrow> string" where
  "TrimPrefix s pre = (if HasPrefix s pre then drop (length pre) s else s)"

definition extractEndpoint :: "string \<Rightarrow> string" where
  "extractEndpoint fullURL =
     (let baseURL = ''https://api.hackerone.com/v1/hackers'' in
      if HasPrefix fullURL baseURL then TrimPrefix fullURL baseURL else fullURL)"

text \<open>
  The loop of \<^verbatim>\<open>GetAllProgramsPaginated\<close>. Its state is the world, the events so far,
  \<^verbatim>\<open>allPrograms\<close>, \<^verbatim>\<open>nextURL\<close> and \<^verbatim>\<open>page\<close>. It has no bound of its own, so it is a
  partial function: \<open>None\<close> is a run that never returns. The page counter is a Go
  \<^verbatim>\<open>int\<close> (64 bits); it is a \<open>nat\<close> here, which agrees with it below \<open>2 ^ 63\<close> pages.
\<close>

partial_function (option) GetAllProgramsPaginated_loop ::
  "'w platform \<Rightarrow> H1Client \<Rightarrow> 'w \<Rightarrow> event list \<Rightarrow> Program list \<Rightarrow> string \<Rightarrow> nat
     \<Rightarrow> ((Program list \<times> error option) \<times> 'w \<times> event list) option" where
  "GetAllProgramsPaginated_loop P c w tr allPrograms nextURL page =
     (if nextURL \<noteq> [] then
        (let tr1 = tr @ [Stdout (''Fetching page '' @ itoa page @ ''...'' @ LF)] in
         case makeRequest P c w ''GET'' nextURL of
           ((body, Some err), w1, ev) \<Rightarrow>
             Some (([], Some (''error fetching page '' @ itoa page @ '': '' @ err)), w1, tr1 @ ev)
         | ((body, None), w1, ev) \<Rightarrow>
             (case UnmarshalPrograms P body of
                Inl err \<Rightarrow>
                  Some (([], Some (''error parsing page '' @ itoa page @ '': '' @ err)), w1, tr1 @ ev)
              | Inr response \<Rightarrow>
                  (let allPrograms1 = allPrograms @ Data response;
                       tr2 = tr1 @ ev @
                         [Stdout (''Page '' @ itoa page @ '': fetched '' @ itoa (length (Data response))
                                  @ '' programs (total: '' @ itoa (length allPrograms1) @ '')'' @ LF)]
                   in case Links response ''next'' of
                        Some nextLink \<Rightarrow>
                          if nextLink \<noteq> []
                          then GetAllProgramsPaginated_loop P c w1
                                 (tr2 @ [Sleep (RateLimitDelay c)]) allPrograms1
                                 (extractEndpoint nextLink) (page + 1)
                          else GetAllProgramsPaginated_loop P c w1 tr2 allPrograms1 [] page
                      | None \<Rightarrow> GetAllProgramsPaginated_loop P c w1 tr2 allPrograms1 [] page)))
      else Some ((allPrograms, None), w, tr))"

definition GetAllProgramsPaginated ::
  "'w platform \<Rightarrow> H1Client \<Rightarrow> 'w
     \<Rightarrow> ((Program list \<times> error option) \<times> 'w \<times> event list) option" where
  "GetAllProgramsPaginated P c w = GetAllProgramsPaginated_loop P c w [] [] ''/programs'' 1"

section \<open>Saving, the single-page calls and printing\<close>

text \<open>
  The functions that return a pointer and an error return \<open>Inl err\<close> for \<^verbatim>\<open>(nil, err)\<close>
  and \<open>Inr x\<close> for \<^verbatim>\<open>(&x, nil)\<close>; \<^verbatim>\<open>SaveProgramsToFile\<close> returns its \<^verbatim>\<open>error\<close>.
\<close>

definition SaveProgramsToFile ::
  "'w platform \<Rightarrow> 'w \<Rightarrow> Program list \<Rightarrow> string \<Rightarrow> error option \<times> 'w \<times> event list" where
  "SaveProgramsToFile P w programs filename =
     (case MarshalIndent P programs [] ''  '' of
        Inl err \<Rightarrow> (Some err, w, [])
      | Inr file \<Rightarrow>
          (case WriteFile P w filename file 420 of
             (Some err, w1) \<Rightarrow> (Some err, w1, [FileWrite filename file])
           | (None, w1) \<Rightarrow>
               (None, w1,
                [FileWrite filename file,
                 Stdout (''Successfully saved '' @ itoa (length programs) @ '' programs to ''
                         @ filename @ LF)])))"

definition GetStructuredScopes ::
  "'w platform \<Rightarrow> H1Client \<Rightarrow> 'w \<Rightarrow> string
     \<Rightarrow> (error + StructuredScopesResponse) \<times> 'w \<times> event list" where
  "GetStructuredScopes P c w programHandle =
     (let endpoint = ''/programs/'' @ programHandle @ ''/structured_scopes'' in
      case makeRequest P c w ''GET'' endpoint of
        ((body, Some err), w1, ev) \<Rightarrow> (Inl err, w1, ev)
      | ((body, None), w1, ev) \<Rightarrow> (UnmarshalScopes P body, w1, ev))"

definition GetWeaknesses ::
  "'w platform \<Rightarrow> H1Client \<Rightarrow> 'w \<Rightarrow> string
     \<Rightarrow> (error + WeaknessesResponse) \<times> 'w \<times> event list" where
  "GetWeaknesses P c w programHandle =
     (let endpoint = ''/programs/'' @ programHandle @ ''/weaknesses'' in
      case makeRequest P c w ''GET'' endpoint of
        ((body, Some err), w1, ev) \<Rightarrow> (Inl err, w1, ev)
      | ((body, None), w1, ev) \<Rightarrow> (UnmarshalWeaknesses P body, w1, ev))"

definition GetAllPrograms ::
  "'w platform \<Rightarrow> H1Client \<Rightarrow> 'w \<Rightarrow> (error + ProgramsResponse) \<times> 'w \<times> event list" where
  "GetAllPrograms P c w =
     (case makeRequest P c w ''GET'' ''/programs'' of
        ((body, Some err), w1, ev) \<Rightarrow> (Inl err, w1, ev)
      | ((body, None), w1, ev) \<Rightarrow> (UnmarshalPrograms P body, w1, ev))"

definition GetProgram ::
  "'w platform \<Rightarrow> H1Client \<Rightarrow> 'w \<Rightarrow> string \<Rightarrow> (error + Program) \<times> 'w \<times> event list" where
  "GetProgram P c w programHandle =
     (let endpoint = ''/programs/'' @ programHandle in
      case makeRequest P c w ''GET'' endpoint of
        ((body, Some err), w1, ev) \<Rightarrow> (Inl err, w1, ev)
      | ((body, None), w1, ev) \<Rightarrow> (UnmarshalProgram P body, w1, ev))"

text \<open>\<^verbatim>\<open>%t\<close>.\<close>

definition fmt_bool :: "bool \<Rightarrow> string" where
  "fmt_bool b = (if b then ''true'' else ''false'')"

text \<open>
  The print functions, as the list of the strings they write to standard output, one
  per call of \<^verbatim>\<open>Printf\<close> or \<^verbatim>\<open>Println\<close>. The range loops run over the items with
  their index.
\<close>

definition PrintStructuredScopes :: "StructuredScopesResponse \<Rightarrow> string \<Rightarrow> string list" where
  "PrintStructuredScopes scopes programHandle =
     [LF @ ''=== Structured Scopes for '' @ programHandle @ '' ==='' @ LF,
      ''Found '' @ itoa (length (Data_s scopes)) @ '' scope entries'' @ LF @ LF]
     @ concat (map (\<lambda>(i, scope).
         [itoa (i + 1) @ ''. Asset: '' @ AssetIdentifier (Attributes_s scope) @ LF,
          ''   Type: '' @ AssetType (Attributes_s scope) @ LF,
          ''   Bounty Eligible: '' @ fmt_bool (EligibleForBounty (Attributes_s scope)) @ LF,
          ''   Submission Eligible: '' @ fmt_bool (EligibleForSubmission (Attributes_s scope)) @ LF,
          ''   Max Severity: '' @ MaxSeverity (Attributes_s scope) @ LF]
         @ (if Instruction (Attributes_s scope) \<noteq> []
            then [''   Instructions: '' @ Instruction (Attributes_s scope) @ LF] else [])
         @ [LF])
       (enumerate 0 (Data_s scopes)))"

definition PrintWeaknesses :: "WeaknessesResponse \<Rightarrow> string \<Rightarrow> string list" where
  "PrintWeaknesses weaknesses programHandle =
     [LF @ ''=== Weaknesses for '' @ programHandle @ '' ==='' @ LF,
      ''Found '' @ itoa (length (Data_w weaknesses)) @ '' weakness types'' @ LF @ LF]
     @ concat (map (\<lambda>(i, weakness).
         [itoa (i + 1) @ ''. '' @ Name_w (Attributes_w weakness)
            @ '' (CWE-'' @ ExternalID (Attributes_w weakness) @ '')'' @ LF,
          ''   Description: '' @ Description (Attributes_w weakness) @ LF,
          LF])
       (enumerate 0 (Data_w weaknesses)))"

definition PrintPrograms :: "Program list \<Rightarrow> string list" where
  "PrintPrograms programs =
     [LF @ ''=== All Programs ==='' @ LF,
      ''Found '' @ itoa (length programs) @ '' programs'' @ LF @ LF]
     @ concat (map (\<lambda>(i, program).
         [itoa (i + 1) @ ''. '' @ Name (Attributes program)
            @ '' ('' @ Handle (Attributes program) @ '')'' @ LF,
          ''   State: '' @ State (Attributes program) @ LF,
          ''   Offers Bounties: '' @ fmt_bool (OffersBounties (Attributes program)) @ LF,
          ''   Open Scope: '' @ fmt_bool (OpenScope (Attributes program)) @ LF,
          ''   Currency: '' @ Currency (Attributes program) @ LF,
          LF])
       (enumerate 0 programs))"

definition PrintProgram :: "Program \<Rightarrow> string list" where
  "PrintProgram program =
     [LF @ ''=== Program Details ==='' @ LF,
      ''Name: '' @ Name (Attributes program) @ LF,
      ''Handle: '' @ Handle (Attributes program) @ LF,
      ''State: '' @ State (Attributes program) @ LF,
      ''Currency: '' @ Currency (Attributes program) @ LF,
      ''Offers Bounties: '' @ fmt_bool (OffersBounties (Attributes program)) @ LF,
      ''Open Scope: '' @ fmt_bool (OpenScope (Attributes program)) @ LF]
     @ (if Policy (Attributes program) \<noteq> []
        then [''Policy: '' @ Policy (Attributes program) @ LF] else [])"

section \<open>The command line\<close>

text \<open>
  \<^verbatim>\<open>os.Getenv\<close>: the value of the variable, empty when it is not set.
\<close>

definition Getenv :: "(string \<rightharpoonup> string) \<Rightarrow> string \<Rightarrow> string" where
  "Getenv environ key = (case environ key of None \<Rightarrow> [] | Some v \<Rightarrow> v)"

text \<open>
  \<^verbatim>\<open>strings.ToLower\<close>: a string of ASCII bytes only has its letters \<^verbatim>\<open>A\<close> to \<^verbatim>\<open>Z\<close>
  replaced by \<^verbatim>\<open>a\<close> to \<^verbatim>\<open>z\<close>; any other string goes through the Unicode mapping,
  which is the platform's.
\<close>

definition lower_byte :: "char \<Rightarrow> char" where
  "lower_byte c =
     (let n = (of_char c :: nat) in if 65 \<le> n \<and> n \<le> 90 then char_of (n + 32) else c)"

definition ToLower :: "'w platform \<Rightarrow> string \<Rightarrow> string" where
  "ToLower P s =
     (if list_all (\<lambda>c. (of_char c :: nat) < 128) s then map lower_byte s
      else UnicodeToLower P s)"

definition usage :: "string list" where
  "usage =
     [''Usage:'' @ LF,
      ''  h1module scopes <program_handle>        - Get structured scopes for a program'' @ LF,
      ''  h1module weaknesses <program_handle>    - Get weaknesses for a program'' @ LF,
      ''  h1module programs                       - Get all programs (single page)'' @ LF,
      ''  h1module programs-all                   - Get ALL programs with pagination'' @ LF,
      ''  h1module programs-all-save <filename>   - Get ALL programs and save to file'' @ LF,
      ''  h1module program <program_handle>       - Get specific program details'' @ LF]"

text \<open>
  \<^verbatim>\<open>main\<close>, from the environment, \<^verbatim>\<open>os.Args\<close> and the world, to the exit status of the
  process, the world and the events. \<^verbatim>\<open>log.Fatal\<close> and \<^verbatim>\<open>log.Fatalf\<close> write their
  message and exit with status 1: the event \<open>Fatal\<close> ends such a run. The result is
  \<open>None\<close> when the pagination never returns.
\<close>

definition main ::
  "'w platform \<Rightarrow> (string \<rightharpoonup> string) \<Rightarrow> string list \<Rightarrow> 'w \<Rightarrow> (nat \<times> 'w \<times> event list) option" where
  "main P environ Args w =
     (let username = Getenv environ ''HACKERONE_USERNAME'';
          token = Getenv environ ''HACKERONE_TOKEN'' in
      if username = [] \<or> token = []
      then Some (1, w, [Fatal ''Please set HACKERONE_USERNAME and HACKERONE_TOKEN environment variables''])
      else
        (let client = NewH1Client username token in
         if length Args < 2 then Some (0, w, map Stdout usage)
         else
           (let mode = Args ! 1; sel = ToLower P mode in
            if sel = ''scopes'' then
              (if length Args < 3 then Some (1, w, [Fatal ''Please provide a program handle''])
               else
                 (let programHandle = Args ! 2 in
                  case GetStructuredScopes P client w programHandle of
                    (Inl err, w1, ev) \<Rightarrow>
                      Some (1, w1, ev @ [Fatal (''Error getting structured scopes: '' @ err)])
                  | (Inr scopes, w1, ev) \<Rightarrow>
                      Some (0, w1, ev @ map Stdout (PrintStructuredScopes scopes programHandle))))
            else if sel = ''weaknesses'' then
              (if length Args < 3 then Some (1, w, [Fatal ''Please provide a program handle''])
               else
                 (let programHandle = Args ! 2 in
                  case GetWeaknesses P client w programHandle of
                    (Inl err, w1, ev) \<Rightarrow>
                      Some (1, w1, ev @ [Fatal (''Error getting weaknesses: '' @ err)])
                  | (Inr weaknesses, w1, ev) \<Rightarrow>
                      Some (0, w1, ev @ map Stdout (PrintWeaknesses weaknesses programHandle))))
            else if sel = ''programs'' then
              (case GetAllPrograms P client w of
                 (Inl err, w1, ev) \<Rightarrow> Some (1, w1, ev @ [Fatal (''Error getting programs: '' @ err)])
               | (Inr programs, w1, ev) \<Rightarrow>
                   Some (0, w1, ev @ map Stdout (PrintPrograms (Data programs))))
            else if sel = ''programs-all'' then
              (case GetAllProgramsPaginated P client w of
                 None \<Rightarrow> None
               | Some ((programs, Some err), w1, ev) \<Rightarrow>
                   Some (1, w1, ev @ [Fatal (''Error getting all programs: '' @ err)])
               | Some ((programs, None), w1, ev) \<Rightarrow>
                   Some (0, w1, ev @ map Stdout (PrintPrograms programs)))
            else if sel = ''programs-all-save'' then
              (if length Args < 3 then Some (1, w, [Fatal ''Please provide a filename''])
               else
                 (let filename = Args ! 2 in
                  case GetAllProgramsPaginated P client w of
                    None \<Rightarrow> None
                  | Some ((programs, Some err), w1, ev) \<Rightarrow>
                      Some (1, w1, ev @ [Fatal (''Error getting all programs: '' @ err)])
                  | Some ((programs, None), w1, ev) \<Rightarrow>
                      (case SaveProgramsToFile P w1 programs filename of
                         (Some err, w2, ev2) \<Rightarrow>
                           Some (1, w2, ev @ ev2 @ [Fatal (''Error saving to file: '' @ err)])
                       | (None, w2, ev2) \<Rightarrow> Some (0, w2, ev @ ev2))))
            else if sel = ''program'' then
              (if length Args < 3 then Some (1, w, [Fatal ''Please provide a program handle''])
               else
                 (let programHandle = Args ! 2 in
                  case GetProgram P client w programHandle of
                    (Inl err, w1, ev) \<Rightarrow> Some (1, w1, ev @ [Fatal (''Error getting program: '' @ err)])
                  | (Inr program, w1, ev) \<Rightarrow> Some (0, w1, ev @ map Stdout (PrintProgram program))))
            else
              Some (1, w, [Fatal ''Invalid mode. Use: scopes, weaknesses, programs, programs-all, programs-all-save, or program'']))))"

section \<open>Reading a run\<close>

text \<open>
  What a trace of events shows: the requests sent, the delays, and both in the order
  they happened.
\<close>

fun requests :: "event list \<Rightarrow> http_request list" where
  "requests [] = []"
| "requests (HTTPDo req # es) = req # requests es"
| "requests (e # es) = requests es"

fun sleeps :: "event list \<Rightarrow> int list" where
  "sleeps [] = []"
| "sleeps (Sleep d # es) = d # sleeps es"
| "sleeps (e # es) = sleeps es"

fun schedule :: "event list \<Rightarrow> event list" where
  "schedule [] = []"
| "schedule (HTTPDo req # es) = HTTPDo req # schedule es"
| "schedule (Sleep d # es) = Sleep d # schedule es"
| "schedule (e # es) = schedule es"

text \<open>
  What a decoded page says about the next one: \<open>has_next\<close> is the test of the loop
  (\<^verbatim>\<open>exists && nextLink != ""\<close>), \<open>next_cursor\<close> the \<^verbatim>\<open>nextURL\<close> it then assigns.
\<close>

definition has_next :: "ProgramsResponse \<Rightarrow> bool" where
  "has_next response = (case Links response ''next'' of None \<Rightarrow> False | Some nextLink \<Rightarrow> nextLink \<noteq> [])"

definition next_cursor :: "ProgramsResponse \<Rightarrow> string" where
  "next_cursor response = (case Links response ''next'' of None \<Rightarrow> [] | Some nextLink \<Rightarrow> extractEndpoint nextLink)"

text \<open>The request \<^verbatim>\<open>makeRequest\<close> builds.\<close>

definition request_for :: "H1Client \<Rightarrow> string \<Rightarrow> string \<Rightarrow> http_request" where
  "request_for c method endpoint =
     \<lparr>Method = method, URL = BaseURL c @ endpoint,
      Header = [(''Accept'', ''application/json'')],
      BasicAuth = Some (Username c, APIToken c)\<rparr>"

text \<open>
  A page is followed when the loop goes on to another request after it: it has a next
  link and the cursor taken from the link is not empty (an empty \<^verbatim>\<open>nextURL\<close> ends the
  loop).
\<close>

definition followed :: "ProgramsResponse \<Rightarrow> bool" where
  "followed response = (has_next response \<and> next_cursor response \<noteq> [])"

text \<open>
  For pages fetched one after the other, starting at the endpoint \<open>url\<close>: the endpoint
  after the last of them, and the requests and delays to expect, a request for each
  page and a delay after it.
\<close>

fun chain_cursor :: "string \<Rightarrow> ProgramsResponse list \<Rightarrow> string" where
  "chain_cursor url [] = url"
| "chain_cursor url (p # ps) = chain_cursor (next_cursor p) ps"

fun chain_schedule :: "H1Client \<Rightarrow> string \<Rightarrow> ProgramsResponse list \<Rightarrow> event list" where
  "chain_schedule c url [] = []"
| "chain_schedule c url (p # ps) =
     HTTPDo (request_for c ''GET'' url) # Sleep (RateLimitDelay c) # chain_schedule c (next_cursor p) ps"

text \<open>
  The events of one turn of the loop that decodes a page: the two progress lines around
  the events \<open>ev\<close> of the request; \<open>n\<close> is the number of programs collected so far.
\<close>

definition page_events :: "event list \<Rightarrow> nat \<Rightarrow> ProgramsResponse \<Rightarrow> nat \<Rightarrow> event list" where
  "page_events ev page response n =
     [Stdout (''Fetching page '' @ itoa page @ ''...'' @ LF)] @ ev @
     [Stdout (''Page '' @ itoa page @ '': fetched '' @ itoa (length (Data response))
              @ '' programs (total: '' @ itoa n @ '')'' @ LF)]"

subsection \<open>Simulated servers\<close>

text \<open>
  A scripted transport answers the requests with the replies of a list, one per request
  and in order, whatever is asked; the state of the world is the replies still to come.
  A constant transport gives every request the same reply.
\<close>

definition scripted_Do ::
  "(error + http_response) list \<Rightarrow> http_request
     \<Rightarrow> (error + http_response) \<times> (error + http_response) list" where
  "scripted_Do w req = (case w of [] \<Rightarrow> (Inl ''EOF'', []) | reply # rest \<Rightarrow> (reply, rest))"

definition constant_Do :: "(error + http_response) \<Rightarrow> unit \<Rightarrow> http_request \<Rightarrow> (error + http_response) \<times> unit" where
  "constant_Do reply w req = (reply, w)"

definition ok_reply :: "string \<Rightarrow> error + http_response" where
  "ok_reply body = Inr \<lparr>StatusCode = 200, Status = ''200 OK'', Body = (body, None)\<rparr>"

text \<open>
  A platform around a transport and a decoder of program pages: every request is
  well-formed, nothing else is decoded or serialised, writing a file succeeds.
\<close>

definition stub ::
  "('w \<Rightarrow> http_request \<Rightarrow> (error + http_response) \<times> 'w)
     \<Rightarrow> (string \<Rightarrow> error + ProgramsResponse) \<Rightarrow> 'w platform" where
  "stub transport decode =
     \<lparr>NewRequest = (\<lambda>method url. None), Do = transport, UnmarshalPrograms = decode,
      UnmarshalScopes = (\<lambda>body. Inl ''unexpected end of JSON input''),
      UnmarshalWeaknesses = (\<lambda>body. Inl ''unexpected end of JSON input''),
      UnmarshalProgram = (\<lambda>body. Inl ''unexpected end of JSON input''),
      MarshalIndent = (\<lambda>programs prefix indent. Inr []),
      WriteFile = (\<lambda>w filename data perm. (None, w)),
      UnicodeToLower = (\<lambda>s. s)\<rparr>"

definition prog :: "string \<Rightarrow> Program" where
  "prog i =
     \<lparr>ID = i, Type = ''program'',
      Attributes = \<lparr>Handle = ''h'' @ i, Name = ''Program '' @ i, Currency = ''usd'', Policy = [],
                    State = ''public_mode'', OffersBounties = True, OpenScope = False\<rparr>\<rparr>"

text \<open>
  Four page bodies and their decoding: \<open>''first''\<close> links to a second page,
  \<open>''second''\<close> has no links, the next link of \<open>''blank''\<close> is the empty string, and the
  next link of \<open>''base''\<close> is the base URL itself.
\<close>

definition demo_decode :: "string \<Rightarrow> error + ProgramsResponse" where
  "demo_decode body =
     (if body = ''first''
      then Inr \<lparr>Data = [prog ''1'', prog ''2''],
                Links = [''next'' \<mapsto> ''https://api.hackerone.com/v1/hackers/programs?page=2'']\<rparr>
      else if body = ''second'' then Inr \<lparr>Data = [prog ''3''], Links = Map.empty\<rparr>
      else if body = ''blank'' then Inr \<lparr>Data = [prog ''3''], Links = [''next'' \<mapsto> []]\<rparr>
      else if body = ''base''
      then Inr \<lparr>Data = [prog ''1''], Links = [''next'' \<mapsto> ''https://api.hackerone.com/v1/hackers'']\<rparr>
      else Inl ''invalid character'')"

text \<open>
  A counting transport numbers its replies, so no two of them are the same; the state
  of the world is the number of requests answered. \<open>numbered_decode\<close> reads the body as
  the one program of a page, and every page has the same next link.
\<close>

definition counting_Do :: "nat \<Rightarrow> http_request \<Rightarrow> (error + http_response) \<times> nat" where
  "counting_Do w req = (ok_reply (itoa w), Suc w)"

definition numbered_decode :: "string \<Rightarrow> error + ProgramsResponse" where
  "numbered_decode body =
     Inr \<lparr>Data = [prog body],
          Links = [''next'' \<mapsto> ''https://api.hackerone.com/v1/hackers/programs?page=2'']\<rparr>"

subsection \<open>The subcommands and the fatal message of a run\<close>

definition subcommands :: "string list" where
  "subcommands =
     [''scopes'', ''weaknesses'', ''programs'', ''programs-all'', ''programs-all-save'', ''program'']"

text \<open>The message of the \<^verbatim>\<open>log.Fatal\<close> that ended a run of \<^verbatim>\<open>main\<close>, if one did.\<close>

definition fatal_message :: "(nat \<times> 'w \<times> event list) option \<Rightarrow> string option" where
  "fatal_message r =
     (case r of
        None \<Rightarrow> None
      | Some (status, w, ev) \<Rightarrow>
          (if ev = [] then None else case last ev of Fatal m \<Rightarrow> Some m | _ \<Rightarrow> None))"

abbreviation (input) invalid_mode :: string where
  "invalid_mode \<equiv>
     ''Invalid mode. Use: scopes, weaknesses, programs, programs-all, programs-all-save, or program''"

section \<open>Properties\<close>

subsection \<open>The cursor of a next link\<close>

lemma requests_makeRequest:
  "requests (snd (snd (makeRequest P c w method endpoint))) =
     (if NewRequest P method (BaseURL c @ endpoint) = None then [request_for c method endpoint] else [])"
  by (simp add: makeRequest_def request_for_def Let_def split: option.splits prod.splits sum.splits)

text \<open>
  Claim C5. For every next link: when the link starts with the base URL,
  \<^verbatim>\<open>extractEndpoint\<close> returns it without that prefix, and the base URL followed by the
  result is the link again; otherwise it returns the link as it is. The prefix it
  strips is the \<^verbatim>\<open>BaseURL\<close> that \<^verbatim>\<open>NewH1Client\<close> configures, and \<^verbatim>\<open>makeRequest\<close> sends
  its request to the client's \<^verbatim>\<open>BaseURL\<close> followed by the endpoint.
\<close>

theorem extractEndpoint_cursor:
  "(HasPrefix link (BaseURL (NewH1Client u t)) \<longrightarrow>
      extractEndpoint link = drop (length (BaseURL (NewH1Client u t))) link \<and>
      BaseURL (NewH1Client u t) @ extractEndpoint link = link) \<and>
   (\<not> HasPrefix link (BaseURL (NewH1Client u t)) \<longrightarrow> extractEndpoint link = link) \<and>
   BaseURL (NewH1Client u t) = ''https://api.hackerone.com/v1/hackers'' \<and>
   (NewRequest P method (BaseURL c @ endpoint) = None \<longrightarrow>
      map URL (requests (snd (snd (makeRequest P c w method endpoint)))) = [BaseURL c @ endpoint])"
proof -
  let ?b = "''https://api.hackerone.com/v1/hackers''"
  have base: "BaseURL (NewH1Client u t) = ?b"
    by (simp add: NewH1Client_def)
  have strip: "extractEndpoint link = drop (length ?b) link" if "HasPrefix link ?b"
    using that by (simp add: extractEndpoint_def TrimPrefix_def)
  have rejoin: "?b @ extractEndpoint link = link" if "HasPrefix link ?b"
  proof -
    from that have "take (length ?b) link = ?b" by (simp add: HasPrefix_def)
    then have "?b @ drop (length ?b) link = take (length ?b) link @ drop (length ?b) link"
      by simp
    then have "?b @ drop (length ?b) link = link" by (simp only: append_take_drop_id)
    with strip [OF that] show ?thesis by simp
  qed
  have raw: "extractEndpoint link = link" if "\<not> HasPrefix link ?b"
    using that by (simp add: extractEndpoint_def)
  have sent: "map URL (requests (snd (snd (makeRequest P c w method endpoint)))) = [BaseURL c @ endpoint]"
    if "NewRequest P method (BaseURL c @ endpoint) = None"
    using that by (simp add: requests_makeRequest request_for_def)
  show ?thesis
    unfolding base using strip rejoin raw sent by blast
qed


theorem extractEndpoint_cursor_witness:
  "HasPrefix ''https://api.hackerone.com/v1/hackers/programs?page=2'' (BaseURL (NewH1Client ''u'' ''t'')) \<and>
   extractEndpoint ''https://api.hackerone.com/v1/hackers/programs?page=2'' = ''/programs?page=2'' \<and>
   \<not> HasPrefix ''http://localhost/programs'' (BaseURL (NewH1Client ''u'' ''t'')) \<and>
   extractEndpoint ''http://localhost/programs'' = ''http://localhost/programs'' \<and>
   NewRequest (stub scripted_Do demo_decode) ''GET'' (BaseURL (NewH1Client ''u'' ''t'') @ ''/programs?page=2'') = None \<and>
   map URL (requests (snd (snd (makeRequest (stub scripted_Do demo_decode) (NewH1Client ''u'' ''t'') [] ''GET'' ''/programs?page=2''))))
     = [''https://api.hackerone.com/v1/hackers/programs?page=2'']"
proof -
  have p: "HasPrefix ''https://api.hackerone.com/v1/hackers/programs?page=2'' (BaseURL (NewH1Client ''u'' ''t''))"
    by (simp add: HasPrefix_def NewH1Client_def)
  have q: "\<not> HasPrefix ''http://localhost/programs'' (BaseURL (NewH1Client ''u'' ''t''))"
    by (simp add: HasPrefix_def NewH1Client_def)
  have n: "NewRequest (stub scripted_Do demo_decode) ''GET'' (BaseURL (NewH1Client ''u'' ''t'') @ ''/programs?page=2'') = None"
    by (simp add: stub_def)
  have b: "BaseURL (NewH1Client ''u'' ''t'') = ''https://api.hackerone.com/v1/hackers''"
    by (simp add: NewH1Client_def)
  note A = extractEndpoint_cursor [of "''https://api.hackerone.com/v1/hackers/programs?page=2''" "''u''" "''t''"
      "stub scripted_Do demo_decode" "''GET''" "NewH1Client ''u'' ''t''" "''/programs?page=2''" "[]"]
  note B = extractEndpoint_cursor [of "''http://localhost/programs''" "''u''" "''t''"
      "stub scripted_Do demo_decode" "''GET''" "NewH1Client ''u'' ''t''" "''/programs?page=2''" "[]"]
  from A p
  have 1: "extractEndpoint ''https://api.hackerone.com/v1/hackers/programs?page=2'' = ''/programs?page=2''"
    by (simp add: b)
  from B q
  have 2: "extractEndpoint ''http://localhost/programs'' = ''http://localhost/programs''"
    by blast
  from A n
  have 3: "map URL (requests (snd (snd (makeRequest (stub scripted_Do demo_decode) (NewH1Client ''u'' ''t'') [] ''GET'' ''/programs?page=2''))))
     = [''https://api.hackerone.com/v1/hackers/programs?page=2'']"
    by (simp add: b)
  from p 1 q 2 n 3 show ?thesis by blast
qed

subsection \<open>One request, one attempt\<close>

text \<open>
  Claim C6. \<^verbatim>\<open>makeRequest\<close> makes one attempt and never retries: whatever happens, it
  sends at most one request, and exactly one when the request could be built. A
  transport failure is returned as it is, with no bytes; a status other than 200 gives
  the status error that carries the status line, with no bytes, and the body is not
  read; a failure while reading the body gives that error, with no bytes; the bytes
  come back with no error only when the response has status 200 and its body was read
  to the end. (A request that \<^verbatim>\<open>http.NewRequest\<close> refuses is an error before any
  attempt.)
\<close>

theorem makeRequest_single_attempt:
  assumes run: "makeRequest P c w method endpoint = ((bytes, err), w1, ev)"
  shows
    "length (requests ev) \<le> 1 \<and>
     (err \<noteq> None \<longrightarrow> bytes = []) \<and>
     (NewRequest P method (BaseURL c @ endpoint) = None \<longrightarrow>
        requests ev = [request_for c method endpoint] \<and>
        (\<forall>e w'. Do P w (request_for c method endpoint) = (Inl e, w') \<longrightarrow>
           err = Some e \<and> ReadBody \<notin> set ev) \<and>
        (\<forall>resp w'. Do P w (request_for c method endpoint) = (Inr resp, w') \<longrightarrow>
           (StatusCode resp \<noteq> 200 \<longrightarrow>
              err = Some (''API request failed with status: '' @ Status resp) \<and> ReadBody \<notin> set ev) \<and>
           (StatusCode resp = 200 \<longrightarrow>
              ReadBody \<in> set ev \<and>
              (\<forall>e. snd (Body resp) = Some e \<longrightarrow> err = Some e) \<and>
              (snd (Body resp) = None \<longrightarrow> err = None \<and> bytes = fst (Body resp))))) \<and>
     (err = None \<longrightarrow>
        NewRequest P method (BaseURL c @ endpoint) = None \<and>
        (\<exists>resp. Do P w (request_for c method endpoint) = (Inr resp, w1) \<and>
           StatusCode resp = 200 \<and> Body resp = (bytes, None)))"
proof (cases "NewRequest P method (BaseURL c @ endpoint)")
  case (Some e)
  with run have "bytes = []" "err = Some e" "ev = []"
    by (simp_all add: makeRequest_def Let_def)
  with Some show ?thesis by simp
next
  case None
  obtain reply w' where d: "Do P w (request_for c method endpoint) = (reply, w')"
    by (cases "Do P w (request_for c method endpoint)")
  show ?thesis
  proof (cases reply)
    case (Inl e)
    with run None d have "bytes = []" "err = Some e" "ev = [HTTPDo (request_for c method endpoint)]"
      by (simp_all add: makeRequest_def request_for_def Let_def)
    with None d Inl show ?thesis by simp
  next
    case (Inr resp)
    show ?thesis
    proof (cases "StatusCode resp = 200")
      case False
      with run None d Inr have "bytes = []"
        "err = Some (''API request failed with status: '' @ Status resp)"
        "ev = [HTTPDo (request_for c method endpoint), CloseBody]"
        by (simp_all add: makeRequest_def request_for_def Let_def)
      with None d Inr False show ?thesis by simp
    next
      case True
      obtain b r where body: "Body resp = (b, r)"
        by (cases "Body resp")
      from run None d Inr True body
      have ev: "ev = [HTTPDo (request_for c method endpoint), ReadBody, CloseBody]" and w1: "w1 = w'"
        and res: "(bytes, err) = (case r of Some e \<Rightarrow> ([], Some e) | None \<Rightarrow> (b, None))"
        by (auto simp add: makeRequest_def request_for_def Let_def split: option.splits)
      show ?thesis
      proof (cases r)
        case None' : None
        with res have "bytes = b" "err = None" by simp_all
        with None d Inr True body None' ev w1 show ?thesis by simp
      next
        case (Some e)
        with res have "bytes = []" "err = Some e" by simp_all
        with None d Inr True body Some ev show ?thesis by simp
      qed
    qed
  qed
qed

theorem makeRequest_single_attempt_witness:
  "makeRequest (stub scripted_Do demo_decode) (NewH1Client ''u'' ''t'') [Inl ''connection refused''] ''GET'' ''/programs''
     = (([], Some ''connection refused''), [],
        [HTTPDo (request_for (NewH1Client ''u'' ''t'') ''GET'' ''/programs'')]) \<and>
   makeRequest (stub scripted_Do demo_decode) (NewH1Client ''u'' ''t'')
       [Inr \<lparr>StatusCode = 404, Status = ''404 Not Found'', Body = (''gone'', None)\<rparr>] ''GET'' ''/programs''
     = (([], Some ''API request failed with status: 404 Not Found''), [],
        [HTTPDo (request_for (NewH1Client ''u'' ''t'') ''GET'' ''/programs''), CloseBody]) \<and>
   makeRequest (stub scripted_Do demo_decode) (NewH1Client ''u'' ''t'')
       [Inr \<lparr>StatusCode = 200, Status = ''200 OK'', Body = (''fir'', Some ''unexpected EOF'')\<rparr>] ''GET'' ''/programs''
     = (([], Some ''unexpected EOF''), [],
        [HTTPDo (request_for (NewH1Client ''u'' ''t'') ''GET'' ''/programs''), ReadBody, CloseBody]) \<and>
   makeRequest (stub scripted_Do demo_decode) (NewH1Client ''u'' ''t'') [ok_reply ''first''] ''GET'' ''/programs''
     = ((''first'', None), [],
        [HTTPDo (request_for (NewH1Client ''u'' ''t'') ''GET'' ''/programs''), ReadBody, CloseBody]) \<and>
   length (requests [HTTPDo (request_for (NewH1Client ''u'' ''t'') ''GET'' ''/programs''), ReadBody, CloseBody]) \<le> 1 \<and>
   NewRequest (stub scripted_Do demo_decode) ''GET'' (BaseURL (NewH1Client ''u'' ''t'') @ ''/programs'') = None \<and>
   (\<exists>resp. Do (stub scripted_Do demo_decode) [ok_reply ''first''] (request_for (NewH1Client ''u'' ''t'') ''GET'' ''/programs'')
              = (Inr resp, []) \<and> StatusCode resp = 200 \<and> Body resp = (''first'', None))"
proof -
  let ?S = "stub scripted_Do demo_decode :: (error + http_response) list platform"
  let ?C = "NewH1Client ''u'' ''t''"
  let ?req = "request_for ?C ''GET'' ''/programs''"
  have r1: "makeRequest ?S ?C [Inl ''connection refused''] ''GET'' ''/programs''
     = (([], Some ''connection refused''), [], [HTTPDo ?req])"
    by (simp add: makeRequest_def stub_def scripted_Do_def request_for_def)
  have r2: "makeRequest ?S ?C
       [Inr \<lparr>StatusCode = 404, Status = ''404 Not Found'', Body = (''gone'', None)\<rparr>] ''GET'' ''/programs''
     = (([], Some ''API request failed with status: 404 Not Found''), [], [HTTPDo ?req, CloseBody])"
    by (simp add: makeRequest_def stub_def scripted_Do_def request_for_def)
  have r3: "makeRequest ?S ?C
       [Inr \<lparr>StatusCode = 200, Status = ''200 OK'', Body = (''fir'', Some ''unexpected EOF'')\<rparr>] ''GET'' ''/programs''
     = (([], Some ''unexpected EOF''), [], [HTTPDo ?req, ReadBody, CloseBody])"
    by (simp add: makeRequest_def stub_def scripted_Do_def request_for_def)
  have r4: "makeRequest ?S ?C [ok_reply ''first''] ''GET'' ''/programs''
     = ((''first'', None), [], [HTTPDo ?req, ReadBody, CloseBody])"
    by (simp add: makeRequest_def stub_def scripted_Do_def request_for_def ok_reply_def)
  from makeRequest_single_attempt [OF r4]
  have "length (requests [HTTPDo ?req, ReadBody, CloseBody]) \<le> 1"
    and "NewRequest ?S ''GET'' (BaseURL ?C @ ''/programs'') = None"
    and "\<exists>resp. Do ?S [ok_reply ''first''] ?req = (Inr resp, []) \<and> StatusCode resp = 200
           \<and> Body resp = (''first'', None)"
    by blast+
  with r1 r2 r3 r4 show ?thesis by blast
qed

subsection \<open>Credentials\<close>

text \<open>
  Claim C8. When \<^verbatim>\<open>HACKERONE_USERNAME\<close> or \<^verbatim>\<open>HACKERONE_TOKEN\<close> is not set or is empty,
  \<^verbatim>\<open>main\<close> ends with the fatal configuration error, whatever the arguments are: the
  fatal message is the only event of the run, so no request was sent, and the world is
  as it was.
\<close>

theorem missing_credentials_fatal:
  assumes "environ ''HACKERONE_USERNAME'' = None \<or> environ ''HACKERONE_USERNAME'' = Some [] \<or>
           environ ''HACKERONE_TOKEN'' = None \<or> environ ''HACKERONE_TOKEN'' = Some []"
  shows "\<exists>ev. main P environ Args w = Some (1, w, ev) \<and>
           ev = [Fatal ''Please set HACKERONE_USERNAME and HACKERONE_TOKEN environment variables''] \<and>
           requests ev = []"
proof -
  from assms have "Getenv environ ''HACKERONE_USERNAME'' = [] \<or> Getenv environ ''HACKERONE_TOKEN'' = []"
    by (auto simp add: Getenv_def)
  then show ?thesis
    by (simp add: main_def)
qed

theorem missing_credentials_fatal_witness:
  "[''HACKERONE_USERNAME'' \<mapsto> ''alice''] ''HACKERONE_TOKEN'' = None \<and>
   main (stub scripted_Do demo_decode) [''HACKERONE_USERNAME'' \<mapsto> ''alice''] [''h1module'', ''programs-all'']
        [ok_reply ''second'']
     = Some (1, [ok_reply ''second''],
             [Fatal ''Please set HACKERONE_USERNAME and HACKERONE_TOKEN environment variables''])"
proof -
  have t: "[''HACKERONE_USERNAME'' \<mapsto> ''alice''] ''HACKERONE_TOKEN'' = None"
    by simp
  then have "[''HACKERONE_USERNAME'' \<mapsto> ''alice''] ''HACKERONE_USERNAME'' = None \<or>
      [''HACKERONE_USERNAME'' \<mapsto> ''alice''] ''HACKERONE_USERNAME'' = Some [] \<or>
      [''HACKERONE_USERNAME'' \<mapsto> ''alice''] ''HACKERONE_TOKEN'' = None \<or>
      [''HACKERONE_USERNAME'' \<mapsto> ''alice''] ''HACKERONE_TOKEN'' = Some []"
    by blast
  from missing_credentials_fatal [OF this, of "stub scripted_Do demo_decode" "[''h1module'', ''programs-all'']" "[ok_reply ''second'']"] t
  show ?thesis by blast
qed

subsection \<open>Choosing the subcommand\<close>

lemma ToLower_names:
  "ToLower P ''scopes'' = ''scopes''"
  "ToLower P ''weaknesses'' = ''weaknesses''"
  "ToLower P ''programs'' = ''programs''"
  "ToLower P ''programs-all'' = ''programs-all''"
  "ToLower P ''programs-all-save'' = ''programs-all-save''"
  "ToLower P ''program'' = ''program''"
  by code_simp+

lemma ToLower_examples:
  "ToLower P ''PROGRAMS'' = ''programs''"
  "ToLower P ''Scopes'' = ''scopes''"
  by code_simp+

lemma main_lowercases:
  assumes "ToLower P a = ToLower P b"
  shows "main P environ (prog_name # a # rest) w = main P environ (prog_name # b # rest) w"
  using assms by (simp add: main_def Let_def)


lemma fatal_message_append:
  "fatal_message (Some (st, w, ev @ ev')) =
     (if ev' = [] then fatal_message (Some (st, w, ev)) else fatal_message (Some (st, w, ev')))"
  by (simp add: fatal_message_def)

lemma fatal_message_single: "fatal_message (Some (st, w, [Fatal m])) = Some m"
  by (simp add: fatal_message_def)

lemma fatal_message_Stdout:
  "xs \<noteq> [] \<Longrightarrow> fatal_message (Some (st, w, map Stdout xs)) = None"
  by (simp add: fatal_message_def last_map)

lemma fatal_message_None: "fatal_message None = None"
  by (simp add: fatal_message_def)

lemmas fatal_simps = fatal_message_append fatal_message_single fatal_message_Stdout fatal_message_None

lemma Print_nonempty:
  "PrintStructuredScopes s h \<noteq> []" "PrintWeaknesses ws h \<noteq> []" "PrintPrograms ps \<noteq> []"
  "PrintProgram p \<noteq> []"
  by (simp_all add: PrintStructuredScopes_def PrintWeaknesses_def PrintPrograms_def PrintProgram_def)

lemma fatal_message_Save:
  assumes "SaveProgramsToFile P w1 programs filename = (None, w2, ev2)"
  shows "fatal_message (Some (st, w', ev2)) = None" and "ev2 \<noteq> []"
  using assms
  by (auto simp add: SaveProgramsToFile_def fatal_message_def split: sum.splits prod.splits option.splits)

lemma main_known_mode:
  assumes u: "Getenv environ ''HACKERONE_USERNAME'' \<noteq> []" and t: "Getenv environ ''HACKERONE_TOKEN'' \<noteq> []"
    and sel: "ToLower P a \<in> set subcommands"
  shows "fatal_message (main P environ (prog_name # a # rest) w) \<noteq> Some invalid_mode"
proof -
  from sel consider
      "ToLower P a = ''scopes''" | "ToLower P a = ''weaknesses''" | "ToLower P a = ''programs''"
    | "ToLower P a = ''programs-all''" | "ToLower P a = ''programs-all-save''" | "ToLower P a = ''program''"
    by (auto simp add: subcommands_def)
  then show ?thesis
  proof cases
    case 1
    with u t show ?thesis
      by (simp add: main_def Let_def fatal_simps Print_nonempty split: prod.splits sum.splits)
  next
    case 2
    with u t show ?thesis
      by (simp add: main_def Let_def fatal_simps Print_nonempty split: prod.splits sum.splits)
  next
    case 3
    with u t show ?thesis
      by (simp add: main_def Let_def fatal_simps Print_nonempty split: prod.splits sum.splits)
  next
    case 4
    with u t show ?thesis
      by (simp add: main_def Let_def fatal_simps Print_nonempty split: prod.splits option.splits)
  next
    case 5
    with u t show ?thesis
      by (auto simp add: main_def Let_def fatal_simps fatal_message_Save
            split: prod.splits option.splits)
  next
    case 6
    with u t show ?thesis
      by (simp add: main_def Let_def fatal_simps Print_nonempty split: prod.splits sum.splits)
  qed
qed

lemma main_unknown_mode:
  assumes "Getenv environ ''HACKERONE_USERNAME'' \<noteq> []" "Getenv environ ''HACKERONE_TOKEN'' \<noteq> []"
    and "ToLower P a \<notin> set subcommands"
  shows "main P environ (prog_name # a # rest) w = Some (1, w, [Fatal invalid_mode])"
  using assms
  by (simp add: main_def Let_def subcommands_def)

text \<open>
  Claim C10. With the credentials set, \<^verbatim>\<open>main\<close> reads its first argument only through
  \<^verbatim>\<open>strings.ToLower\<close>: two arguments with the same lower-case form give the same run, so
  an argument whose lower-case form is one of the six subcommands runs as that
  subcommand does; and the run ends with the fatal message for an unknown subcommand
  exactly when the lower-case form is none of the six.
\<close>

theorem subcommand_case_insensitive:
  assumes u: "Getenv environ ''HACKERONE_USERNAME'' \<noteq> []" and t: "Getenv environ ''HACKERONE_TOKEN'' \<noteq> []"
  shows
    "(ToLower P a = ToLower P b \<longrightarrow>
        main P environ (prog_name # a # rest) w = main P environ (prog_name # b # rest) w) \<and>
     (ToLower P a \<in> set subcommands \<longrightarrow>
        main P environ (prog_name # a # rest) w = main P environ (prog_name # ToLower P a # rest) w) \<and>
     (fatal_message (main P environ (prog_name # a # rest) w) = Some invalid_mode
        \<longleftrightarrow> ToLower P a \<notin> set subcommands)"
proof (intro conjI impI)
  assume "ToLower P a = ToLower P b"
  then show "main P environ (prog_name # a # rest) w = main P environ (prog_name # b # rest) w"
    by (rule main_lowercases)
next
  assume "ToLower P a \<in> set subcommands"
  then have "ToLower P (ToLower P a) = ToLower P a"
    by (auto simp add: subcommands_def ToLower_names)
  then have "ToLower P a = ToLower P (ToLower P a)"
    by simp
  then show "main P environ (prog_name # a # rest) w = main P environ (prog_name # ToLower P a # rest) w"
    by (rule main_lowercases)
next
  show "fatal_message (main P environ (prog_name # a # rest) w) = Some invalid_mode
          \<longleftrightarrow> ToLower P a \<notin> set subcommands"
  proof
    assume "fatal_message (main P environ (prog_name # a # rest) w) = Some invalid_mode"
    with main_known_mode [OF u t, of P a prog_name rest w] show "ToLower P a \<notin> set subcommands"
      by blast
  next
    assume "ToLower P a \<notin> set subcommands"
    from main_unknown_mode [OF u t this]
    show "fatal_message (main P environ (prog_name # a # rest) w) = Some invalid_mode"
      by (simp add: fatal_message_single)
  qed
qed

theorem subcommand_case_insensitive_witness:
  "Getenv [''HACKERONE_USERNAME'' \<mapsto> ''alice'', ''HACKERONE_TOKEN'' \<mapsto> ''secret''] ''HACKERONE_USERNAME'' \<noteq> [] \<and>
   Getenv [''HACKERONE_USERNAME'' \<mapsto> ''alice'', ''HACKERONE_TOKEN'' \<mapsto> ''secret''] ''HACKERONE_TOKEN'' \<noteq> [] \<and>
   ToLower (stub scripted_Do demo_decode) ''PROGRAMS-ALL'' = ToLower (stub scripted_Do demo_decode) ''programs-all'' \<and>
   main (stub scripted_Do demo_decode) [''HACKERONE_USERNAME'' \<mapsto> ''alice'', ''HACKERONE_TOKEN'' \<mapsto> ''secret'']
        [''h1module'', ''PROGRAMS-ALL''] [ok_reply ''second'']
     = main (stub scripted_Do demo_decode) [''HACKERONE_USERNAME'' \<mapsto> ''alice'', ''HACKERONE_TOKEN'' \<mapsto> ''secret'']
        [''h1module'', ''programs-all''] [ok_reply ''second''] \<and>
   ToLower (stub scripted_Do demo_decode) ''Scopes'' = ''scopes'' \<and>
   ''scopes'' \<in> set subcommands \<and>
   main (stub scripted_Do demo_decode) [''HACKERONE_USERNAME'' \<mapsto> ''alice'', ''HACKERONE_TOKEN'' \<mapsto> ''secret'']
        [''h1module'', ''Scopes'', ''acme''] [ok_reply ''second'']
     = main (stub scripted_Do demo_decode) [''HACKERONE_USERNAME'' \<mapsto> ''alice'', ''HACKERONE_TOKEN'' \<mapsto> ''secret'']
        [''h1module'', ''scopes'', ''acme''] [ok_reply ''second''] \<and>
   ToLower (stub scripted_Do demo_decode) ''Fetch'' \<notin> set subcommands \<and>
   fatal_message (main (stub scripted_Do demo_decode)
        [''HACKERONE_USERNAME'' \<mapsto> ''alice'', ''HACKERONE_TOKEN'' \<mapsto> ''secret'']
        [''h1module'', ''Fetch''] [ok_reply ''second'']) = Some invalid_mode"
proof -
  let ?S = "stub scripted_Do demo_decode :: (error + http_response) list platform"
  let ?E = "[''HACKERONE_USERNAME'' \<mapsto> ''alice'', ''HACKERONE_TOKEN'' \<mapsto> ''secret'']"
  have u: "Getenv ?E ''HACKERONE_USERNAME'' \<noteq> []" and t: "Getenv ?E ''HACKERONE_TOKEN'' \<noteq> []"
    by (simp_all add: Getenv_def)
  have l1: "ToLower ?S ''PROGRAMS-ALL'' = ToLower ?S ''programs-all''"
    by code_simp
  have l2: "ToLower ?S ''Scopes'' = ''scopes''"
    by code_simp
  have m2: "''scopes'' \<in> set subcommands"
    by (simp add: subcommands_def)
  have l3: "ToLower ?S ''Fetch'' = ''fetch''"
    by code_simp
  have m3: "ToLower ?S ''Fetch'' \<notin> set subcommands"
    by (simp add: l3 subcommands_def)
  note A = subcommand_case_insensitive [OF u t, of ?S "''PROGRAMS-ALL''" "''programs-all''" "''h1module''" "[]" "[ok_reply ''second'']"]
  note B = subcommand_case_insensitive [OF u t, of ?S "''Scopes''" "''scopes''" "''h1module''" "[''acme'']" "[ok_reply ''second'']"]
  note C = subcommand_case_insensitive [OF u t, of ?S "''Fetch''" "''fetch''" "''h1module''" "[]" "[ok_reply ''second'']"]
  from A l1 have r1: "main ?S ?E [''h1module'', ''PROGRAMS-ALL''] [ok_reply ''second'']
      = main ?S ?E [''h1module'', ''programs-all''] [ok_reply ''second'']"
    by blast
  from B l2 m2 have r2: "main ?S ?E [''h1module'', ''Scopes'', ''acme''] [ok_reply ''second'']
      = main ?S ?E [''h1module'', ''scopes'', ''acme''] [ok_reply ''second'']"
    by simp
  from C m3 have r3: "fatal_message (main ?S ?E [''h1module'', ''Fetch''] [ok_reply ''second'']) = Some invalid_mode"
    by blast
  from u t l1 r1 l2 m2 r2 m3 r3 show ?thesis
    by blast
qed

subsection \<open>One turn of the loop\<close>

lemma loop_done:
  "GetAllProgramsPaginated_loop P c w tr acc [] page = Some ((acc, None), w, tr)"
  by (subst GetAllProgramsPaginated_loop.simps) simp

lemma loop_fetch_fail:
  assumes "nextURL \<noteq> []" and "makeRequest P c w ''GET'' nextURL = ((body, Some err), w1, ev)"
  shows "GetAllProgramsPaginated_loop P c w tr acc nextURL page =
    Some (([], Some (''error fetching page '' @ itoa page @ '': '' @ err)), w1,
          tr @ [Stdout (''Fetching page '' @ itoa page @ ''...'' @ LF)] @ ev)"
  using assms by (subst GetAllProgramsPaginated_loop.simps) simp


lemma loop_last:
  assumes "nextURL \<noteq> []" and "makeRequest P c w ''GET'' nextURL = ((body, None), w1, ev)"
    and "UnmarshalPrograms P body = Inr response" and "\<not> has_next response"
  shows "GetAllProgramsPaginated_loop P c w tr acc nextURL page =
    Some ((acc @ Data response, None), w1,
          tr @ page_events ev page response (length (acc @ Data response)))"
  using assms
  by (subst GetAllProgramsPaginated_loop.simps)
     (simp add: has_next_def page_events_def loop_done Let_def split: option.splits)

lemma loop_next:
  assumes "nextURL \<noteq> []" and "makeRequest P c w ''GET'' nextURL = ((body, None), w1, ev)"
    and "UnmarshalPrograms P body = Inr response" and "has_next response"
  shows "GetAllProgramsPaginated_loop P c w tr acc nextURL page =
    GetAllProgramsPaginated_loop P c w1
      (tr @ page_events ev page response (length (acc @ Data response)) @ [Sleep (RateLimitDelay c)])
      (acc @ Data response) (next_cursor response) (Suc page)"
  using assms
  by (subst GetAllProgramsPaginated_loop.simps)
     (simp add: has_next_def next_cursor_def page_events_def Let_def split: option.splits)

lemma sleeps_append: "sleeps (xs @ ys) = sleeps xs @ sleeps ys"
  by (induction xs rule: sleeps.induct) simp_all

lemma requests_append: "requests (xs @ ys) = requests xs @ requests ys"
  by (induction xs rule: requests.induct) simp_all

lemma schedule_append: "schedule (xs @ ys) = schedule xs @ schedule ys"
  by (induction xs rule: schedule.induct) simp_all

lemma makeRequest_scripted_ok:
  assumes "Do P = scripted_Do" and "NewRequest P method (BaseURL c @ endpoint) = None"
  shows "makeRequest P c (ok_reply body # w) method endpoint =
    ((body, None), w, [HTTPDo (request_for c method endpoint), ReadBody, CloseBody])"
  using assms by (simp add: makeRequest_def scripted_Do_def ok_reply_def request_for_def)

subsection \<open>A page without a next link\<close>

text \<open>
  Claim C9. A page decoded with no links at all (the empty map), or with links that
  have no \<^verbatim>\<open>"next"\<close> key, ends the pagination as the same page with the empty string
  for its next link does: in every state of the loop, with no error, with the programs
  collected so far followed by those of the page, and with no delay after the page.
\<close>

theorem missing_next_link_ends_pagination:
  assumes url: "nextURL \<noteq> []"
    and fetch: "makeRequest P c w ''GET'' nextURL = ((body, None), w1, ev)"
    and decode: "UnmarshalPrograms P body = Inr response"
    and missing: "Links response = Map.empty \<or> Links response ''next'' = None"
    and fetch': "makeRequest P' c w' ''GET'' nextURL = ((body', None), w1', ev')"
    and decode': "UnmarshalPrograms P' body' = Inr (response\<lparr>Links := (Links response)(''next'' \<mapsto> [])\<rparr>)"
  shows
    "GetAllProgramsPaginated_loop P c w tr allPrograms nextURL page =
       Some ((allPrograms @ Data response, None), w1,
             tr @ page_events ev page response (length (allPrograms @ Data response))) \<and>
     GetAllProgramsPaginated_loop P' c w' tr allPrograms nextURL page =
       Some ((allPrograms @ Data response, None), w1',
             tr @ page_events ev' page response (length (allPrograms @ Data response))) \<and>
     sleeps (page_events ev page response (length (allPrograms @ Data response))) = sleeps ev"
proof -
  from missing have no: "\<not> has_next response"
    by (auto simp add: has_next_def)
  let ?blank = "response\<lparr>Links := (Links response)(''next'' \<mapsto> [])\<rparr>"
  have no': "\<not> has_next ?blank"
    by (simp add: has_next_def)
  have same: "page_events ev' page ?blank n = page_events ev' page response n" for n
    by (simp add: page_events_def)
  have quiet: "sleeps (page_events ev page response n) = sleeps ev" for n
    by (simp add: page_events_def sleeps_append)
  from loop_last [OF url fetch decode no] loop_last [OF url fetch' decode' no'] same quiet
  show ?thesis by simp
qed

theorem missing_next_link_ends_pagination_witness:
  "makeRequest (stub scripted_Do demo_decode) (NewH1Client ''u'' ''t'') [ok_reply ''second''] ''GET'' ''/programs''
     = ((''second'', None), [],
        [HTTPDo (request_for (NewH1Client ''u'' ''t'') ''GET'' ''/programs''), ReadBody, CloseBody]) \<and>
   UnmarshalPrograms (stub scripted_Do demo_decode) ''second'' = Inr \<lparr>Data = [prog ''3''], Links = Map.empty\<rparr> \<and>
   makeRequest (stub scripted_Do demo_decode) (NewH1Client ''u'' ''t'') [ok_reply ''blank''] ''GET'' ''/programs''
     = ((''blank'', None), [],
        [HTTPDo (request_for (NewH1Client ''u'' ''t'') ''GET'' ''/programs''), ReadBody, CloseBody]) \<and>
   UnmarshalPrograms (stub scripted_Do demo_decode) ''blank'' = Inr \<lparr>Data = [prog ''3''], Links = [''next'' \<mapsto> []]\<rparr> \<and>
   map_option fst (GetAllProgramsPaginated (stub scripted_Do demo_decode) (NewH1Client ''u'' ''t'') [ok_reply ''second''])
     = Some ([prog ''3''], None) \<and>
   map_option fst (GetAllProgramsPaginated (stub scripted_Do demo_decode) (NewH1Client ''u'' ''t'') [ok_reply ''blank''])
     = Some ([prog ''3''], None)"
proof -
  let ?S = "stub scripted_Do demo_decode :: (error + http_response) list platform"
  let ?C = "NewH1Client ''u'' ''t''"
  let ?ev = "[HTTPDo (request_for ?C ''GET'' ''/programs''), ReadBody, CloseBody]"
  let ?R = "\<lparr>Data = [prog ''3''], Links = Map.empty\<rparr>"
  have url: "''/programs'' \<noteq> []" by simp
  have f: "makeRequest ?S ?C [ok_reply ''second''] ''GET'' ''/programs'' = ((''second'', None), [], ?ev)"
    by (rule makeRequest_scripted_ok) (simp_all add: stub_def)
  have d: "UnmarshalPrograms ?S ''second'' = Inr ?R"
    by (simp add: stub_def demo_decode_def)
  have m: "Links ?R = Map.empty \<or> Links ?R ''next'' = None" by simp
  have f': "makeRequest ?S ?C [ok_reply ''blank''] ''GET'' ''/programs'' = ((''blank'', None), [], ?ev)"
    by (rule makeRequest_scripted_ok) (simp_all add: stub_def)
  have d': "UnmarshalPrograms ?S ''blank'' = Inr (?R\<lparr>Links := (Links ?R)(''next'' \<mapsto> [])\<rparr>)"
    by (simp add: stub_def demo_decode_def)
  have d'': "UnmarshalPrograms ?S ''blank'' = Inr \<lparr>Data = [prog ''3''], Links = [''next'' \<mapsto> []]\<rparr>"
    by (simp add: stub_def demo_decode_def)
  from missing_next_link_ends_pagination [OF url f d m f' d', of "[]" "[]" 1]
  have "map_option fst (GetAllProgramsPaginated ?S ?C [ok_reply ''second'']) = Some ([prog ''3''], None)"
    and "map_option fst (GetAllProgramsPaginated ?S ?C [ok_reply ''blank'']) = Some ([prog ''3''], None)"
    by (simp_all add: GetAllProgramsPaginated_def)
  with f d f' d'' show ?thesis by blast
qed

subsection \<open>A chain of pages\<close>

lemma schedule_page_events:
  "schedule (page_events [HTTPDo req, ReadBody, CloseBody] page response n) = [HTTPDo req]"
  by (simp add: page_events_def)

lemma loop_chain:
  assumes transport: "Do P = scripted_Do"
    and wf: "\<forall>method url. NewRequest P method url = None"
  shows "map (UnmarshalPrograms P) bodies = map Inr pages \<Longrightarrow> list_all followed pages \<Longrightarrow>
    nextURL \<noteq> [] \<Longrightarrow>
    \<exists>tr'. GetAllProgramsPaginated_loop P c (map ok_reply bodies @ w) tr acc nextURL page
             = GetAllProgramsPaginated_loop P c w tr' (acc @ concat (map Data pages))
                 (chain_cursor nextURL pages) (page + length pages)
          \<and> schedule tr' = schedule tr @ chain_schedule c nextURL pages
          \<and> chain_cursor nextURL pages \<noteq> []"
proof (induction pages arbitrary: bodies tr acc nextURL page)
  case Nil
  then show ?case by (intro exI [of _ tr]) simp
next
  case (Cons p ps)
  from Cons.prems(1) obtain b bs where bodies: "bodies = b # bs"
    and b: "UnmarshalPrograms P b = Inr p" and bs: "map (UnmarshalPrograms P) bs = map Inr ps"
    by (cases bodies) auto
  from Cons.prems(2) have "followed p" and rest: "list_all followed ps"
    by simp_all
  then have nxt: "has_next p" and cur: "next_cursor p \<noteq> []"
    by (simp_all add: followed_def)
  let ?ev = "[HTTPDo (request_for c ''GET'' nextURL), ReadBody, CloseBody]"
  let ?tr = "tr @ page_events ?ev page p (length (acc @ Data p)) @ [Sleep (RateLimitDelay c)]"
  have fetch: "makeRequest P c (ok_reply b # map ok_reply bs @ w) ''GET'' nextURL
      = ((b, None), map ok_reply bs @ w, ?ev)"
    using transport wf by (simp add: makeRequest_scripted_ok)
  have step: "GetAllProgramsPaginated_loop P c (map ok_reply bodies @ w) tr acc nextURL page
      = GetAllProgramsPaginated_loop P c (map ok_reply bs @ w) ?tr (acc @ Data p) (next_cursor p) (Suc page)"
    using loop_next [OF Cons.prems(3) fetch b nxt] by (simp add: bodies)
  from Cons.IH [OF bs rest cur, of ?tr "acc @ Data p" "Suc page"]
  obtain tr' where run: "GetAllProgramsPaginated_loop P c (map ok_reply bs @ w) ?tr (acc @ Data p) (next_cursor p) (Suc page)
        = GetAllProgramsPaginated_loop P c w tr' ((acc @ Data p) @ concat (map Data ps))
            (chain_cursor (next_cursor p) ps) (Suc page + length ps)"
      and sched: "schedule tr' = schedule ?tr @ chain_schedule c (next_cursor p) ps"
      and last: "chain_cursor (next_cursor p) ps \<noteq> []"
    by blast
  have "schedule ?tr = schedule tr @ [HTTPDo (request_for c ''GET'' nextURL), Sleep (RateLimitDelay c)]"
    by (simp add: schedule_append schedule_page_events)
  with sched have "schedule tr' = schedule tr @ chain_schedule c nextURL (p # ps)"
    by simp
  with step run last show ?case
    by (intro exI [of _ tr']) simp
qed

lemma makeRequest_scripted_transport:
  assumes "Do P = scripted_Do" and "NewRequest P method (BaseURL c @ endpoint) = None"
  shows "makeRequest P c (Inl err # w) method endpoint =
    (([], Some err), w, [HTTPDo (request_for c method endpoint)])"
  using assms by (simp add: makeRequest_def scripted_Do_def request_for_def)



lemma paginated_chain:
  assumes transport: "Do P = scripted_Do"
    and wf: "\<forall>method url. NewRequest P method url = None"
    and decoded: "map (UnmarshalPrograms P) bodies = map Inr pages"
    and linked: "list_all followed pages"
  shows "\<exists>tr'. GetAllProgramsPaginated P c (map ok_reply bodies @ w)
             = GetAllProgramsPaginated_loop P c w tr' (concat (map Data pages))
                 (chain_cursor ''/programs'' pages) (Suc (length pages))
          \<and> schedule tr' = chain_schedule c ''/programs'' pages
          \<and> chain_cursor ''/programs'' pages \<noteq> []"
proof -
  have "''/programs'' \<noteq> []" by simp
  from loop_chain [OF transport wf decoded linked this, of c w "[]" "[]" 1]
  show ?thesis by (simp add: GetAllProgramsPaginated_def)
qed



subsection \<open>Runs that end, runs that do not\<close>

lemma requests_schedule: "requests (schedule ev) = requests ev"
  by (induction ev rule: schedule.induct) simp_all

lemma sleeps_schedule: "sleeps (schedule ev) = sleeps ev"
  by (induction ev rule: schedule.induct) simp_all

lemma requests_chain_schedule: "length (requests (chain_schedule c url pages)) = length pages"
  by (induction pages arbitrary: url) simp_all

lemma sleeps_chain_schedule: "sleeps (chain_schedule c url pages) = replicate (length pages) (RateLimitDelay c)"
  by (induction pages arbitrary: url) simp_all

text \<open>
  A server that answers in order, with pages that decode: when every page before the
  last is followed and the last has no non-empty next link, the run returns the
  programs of all the pages, in the order of the pages, after one request for each
  page and one delay between two requests.
\<close>

lemma paginated_collects:
  assumes transport: "Do P = scripted_Do"
    and wf: "\<forall>method url. NewRequest P method url = None"
    and decoded: "map (UnmarshalPrograms P) bodies = map Inr pages"
    and linked: "list_all followed pages"
    and final_body: "UnmarshalPrograms P body = Inr final"
    and final: "\<not> has_next final"
  shows "\<exists>tr. GetAllProgramsPaginated P c (map ok_reply bodies @ ok_reply body # w)
             = Some ((concat (map Data pages) @ Data final, None), w, tr)
          \<and> schedule tr = chain_schedule c ''/programs'' pages
               @ [HTTPDo (request_for c ''GET'' (chain_cursor ''/programs'' pages))]"
proof -
  from paginated_chain [OF transport wf decoded linked, of c "ok_reply body # w"]
  obtain tr' where run: "GetAllProgramsPaginated P c (map ok_reply bodies @ ok_reply body # w)
        = GetAllProgramsPaginated_loop P c (ok_reply body # w) tr' (concat (map Data pages))
            (chain_cursor ''/programs'' pages) (Suc (length pages))"
    and sched: "schedule tr' = chain_schedule c ''/programs'' pages"
    and url: "chain_cursor ''/programs'' pages \<noteq> []"
    by blast
  let ?ev = "[HTTPDo (request_for c ''GET'' (chain_cursor ''/programs'' pages)), ReadBody, CloseBody]"
  let ?tr = "tr' @ page_events ?ev (Suc (length pages)) final (length (concat (map Data pages) @ Data final))"
  from transport wf have "makeRequest P c (ok_reply body # w) ''GET'' (chain_cursor ''/programs'' pages)
      = ((body, None), w, ?ev)"
    by (simp add: makeRequest_scripted_ok)
  from loop_last [OF url this final_body final] run
  have "GetAllProgramsPaginated P c (map ok_reply bodies @ ok_reply body # w)
      = Some ((concat (map Data pages) @ Data final, None), w, ?tr)"
    by simp
  moreover have "schedule ?tr = chain_schedule c ''/programs'' pages
      @ [HTTPDo (request_for c ''GET'' (chain_cursor ''/programs'' pages))]"
    by (simp add: schedule_append schedule_page_events sched)
  ultimately show ?thesis by blast
qed

lemma makeRequest_constant_ok:
  assumes "Do P = constant_Do (ok_reply body)" and "NewRequest P method (BaseURL c @ endpoint) = None"
  shows "makeRequest P c w method endpoint =
    ((body, None), w, [HTTPDo (request_for c method endpoint), ReadBody, CloseBody])"
  using assms by (simp add: makeRequest_def constant_Do_def ok_reply_def request_for_def)

text \<open>
  A server that answers every request with status 200 and a body that decodes, where
  every page has the same next link, the link is not empty and neither is the cursor
  taken from it: a run of the loop that returns started with an empty \<^verbatim>\<open>nextURL\<close>, so
  no run from a request returns. The pages may differ in everything else.
\<close>

lemma loop_returns_cursor_empty:
  assumes wf: "\<forall>method url. NewRequest P method url = None"
    and server: "\<forall>w req. \<exists>resp w1 body response.
        Do P w req = (Inr resp, w1) \<and> StatusCode resp = 200 \<and> Body resp = (body, None) \<and>
        UnmarshalPrograms P body = Inr response \<and> Links response ''next'' = Some link"
    and link: "link \<noteq> []" and cursor: "extractEndpoint link \<noteq> []"
    and run: "GetAllProgramsPaginated_loop P c w tr acc nextURL page = Some y"
  shows "nextURL = []"
proof -
  have "fst (fst (fst (fst (fst (fst ((((((P, c), w), tr), acc), nextURL), page)))))) = P
      \<longrightarrow> snd (fst ((((((P, c), w), tr), acc), nextURL), page)) = []"
  proof (rule GetAllProgramsPaginated_loop.raw_induct
      [where Pa = "\<lambda>x y. fst (fst (fst (fst (fst (fst x))))) = P \<longrightarrow> snd (fst x) = []", OF _ run],
      goal_cases)
    case (1 f P' c w tr acc url page y)
    show ?case
    proof (simp, intro impI, rule ccontr)
      assume eq: "P' = P" and nonempty: "url \<noteq> []"
      from server obtain resp w1 body response
        where reply: "Do P w (request_for c ''GET'' url) = (Inr resp, w1)"
          and ok: "StatusCode resp = 200" "Body resp = (body, None)"
          and decoded: "UnmarshalPrograms P body = Inr response"
          and nxt: "Links response ''next'' = Some link"
        by blast
      from wf reply ok have fetch: "makeRequest P c w ''GET'' url
          = ((body, None), w1, [HTTPDo (request_for c ''GET'' url), ReadBody, CloseBody])"
        by (simp add: makeRequest_def request_for_def)
      from 1(2) [unfolded eq] nonempty fetch decoded nxt link
      obtain tr' acc' where "f P c w1 tr' acc' (extractEndpoint link) (page + 1) = Some y"
        by (auto simp add: Let_def)
      from 1(1) [OF this] cursor show False
        by simp
    qed
  qed
  then show ?thesis by simp
qed

lemma loop_diverges:
  assumes wf: "\<forall>method url. NewRequest P method url = None"
    and server: "\<forall>w req. \<exists>resp w1 body response.
        Do P w req = (Inr resp, w1) \<and> StatusCode resp = 200 \<and> Body resp = (body, None) \<and>
        UnmarshalPrograms P body = Inr response \<and> Links response ''next'' = Some link"
    and link: "link \<noteq> []" and cursor: "extractEndpoint link \<noteq> []"
    and url: "nextURL \<noteq> []"
  shows "GetAllProgramsPaginated_loop P c w tr acc nextURL page = None"
proof (cases "GetAllProgramsPaginated_loop P c w tr acc nextURL page")
  case None
  then show ?thesis .
next
  case (Some y)
  from loop_returns_cursor_empty [OF wf server link cursor Some] url
  show ?thesis by simp
qed

subsection \<open>A next link that is the base URL\<close>

text \<open>
  A page with a next link whose cursor is empty: the loop counts the page, sleeps, and
  returns what it has.
\<close>

lemma loop_stops_at_empty_cursor:
  assumes "nextURL \<noteq> []" and "makeRequest P c w ''GET'' nextURL = ((body, None), w1, ev)"
    and "UnmarshalPrograms P body = Inr response" and "has_next response"
    and "next_cursor response = []"
  shows "GetAllProgramsPaginated_loop P c w tr acc nextURL page =
    Some ((acc @ Data response, None), w1,
          tr @ page_events ev page response (length (acc @ Data response)) @ [Sleep (RateLimitDelay c)])"
  using loop_next [OF assms(1-4)] assms(5) by (simp add: loop_done)

lemma demo_base:
  "demo_decode ''base'' = Inr \<lparr>Data = [prog ''1''], Links = [''next'' \<mapsto> ''https://api.hackerone.com/v1/hackers'']\<rparr>"
  "has_next \<lparr>Data = [prog ''1''], Links = [''next'' \<mapsto> ''https://api.hackerone.com/v1/hackers'']\<rparr>"
  "next_cursor \<lparr>Data = [prog ''1''], Links = [''next'' \<mapsto> ''https://api.hackerone.com/v1/hackers'']\<rparr> = []"
  by (simp_all add: demo_decode_def has_next_def next_cursor_def extractEndpoint_def HasPrefix_def TrimPrefix_def)

lemma demo_second:
  "demo_decode ''second'' = Inr \<lparr>Data = [prog ''3''], Links = Map.empty\<rparr>"
  "\<not> has_next \<lparr>Data = [prog ''3''], Links = Map.empty\<rparr>"
  by (simp_all add: demo_decode_def has_next_def)

lemma demo_first:
  "demo_decode ''first'' = Inr \<lparr>Data = [prog ''1'', prog ''2''],
       Links = [''next'' \<mapsto> ''https://api.hackerone.com/v1/hackers/programs?page=2'']\<rparr>"
  "followed \<lparr>Data = [prog ''1'', prog ''2''],
       Links = [''next'' \<mapsto> ''https://api.hackerone.com/v1/hackers/programs?page=2'']\<rparr>"
  by (simp_all add: demo_decode_def followed_def has_next_def next_cursor_def extractEndpoint_def
        HasPrefix_def TrimPrefix_def)

lemma scripted_base_run:
  "GetAllProgramsPaginated (stub scripted_Do demo_decode) (NewH1Client ''u'' ''t'') (ok_reply ''base'' # rest)
     = Some (([prog ''1''], None), rest,
             page_events [HTTPDo (request_for (NewH1Client ''u'' ''t'') ''GET'' ''/programs''), ReadBody, CloseBody]
                1 \<lparr>Data = [prog ''1''], Links = [''next'' \<mapsto> ''https://api.hackerone.com/v1/hackers'']\<rparr> 1
             @ [Sleep 100000000])"
proof -
  let ?S = "stub scripted_Do demo_decode :: (error + http_response) list platform"
  let ?C = "NewH1Client ''u'' ''t''"
  have url: "''/programs'' \<noteq> []" by simp
  have fetch: "makeRequest ?S ?C (ok_reply ''base'' # rest) ''GET'' ''/programs''
      = ((''base'', None), rest, [HTTPDo (request_for ?C ''GET'' ''/programs''), ReadBody, CloseBody])"
    by (rule makeRequest_scripted_ok) (simp_all add: stub_def)
  have decode: "UnmarshalPrograms ?S ''base''
      = Inr \<lparr>Data = [prog ''1''], Links = [''next'' \<mapsto> ''https://api.hackerone.com/v1/hackers'']\<rparr>"
    by (simp add: stub_def demo_base)
  from loop_stops_at_empty_cursor [OF url fetch decode demo_base(2) demo_base(3), of "[]" "[]" 1]
  show ?thesis
    by (simp add: GetAllProgramsPaginated_def NewH1Client_def)
qed

text \<open>
  Claim C1, at an input where the code departs from it. The server has two pages; the
  next link of the first is the base URL itself, the second has no links. The claim
  gives the programs of both pages. The code takes the empty string for the cursor,
  which is also its sign for the end: it returns the programs of the first page only,
  and the second reply is never asked for.
\<close>

theorem base_link_drops_following_pages:
  "UnmarshalPrograms (stub scripted_Do demo_decode) ''base''
     = Inr \<lparr>Data = [prog ''1''], Links = [''next'' \<mapsto> ''https://api.hackerone.com/v1/hackers'']\<rparr> \<and>
   has_next \<lparr>Data = [prog ''1''], Links = [''next'' \<mapsto> ''https://api.hackerone.com/v1/hackers'']\<rparr> \<and>
   UnmarshalPrograms (stub scripted_Do demo_decode) ''second'' = Inr \<lparr>Data = [prog ''3''], Links = Map.empty\<rparr> \<and>
   \<not> has_next \<lparr>Data = [prog ''3''], Links = Map.empty\<rparr> \<and>
   map_option (\<lambda>(r, w, tr). (r, w))
     (GetAllProgramsPaginated (stub scripted_Do demo_decode) (NewH1Client ''u'' ''t'')
        [ok_reply ''base'', ok_reply ''second''])
     = Some (([prog ''1''], None), [ok_reply ''second'']) \<and>
   [prog ''1''] \<noteq> [prog ''1''] @ [prog ''3'']"
proof -
  have "UnmarshalPrograms (stub scripted_Do demo_decode) = demo_decode"
    by (simp add: stub_def)
  then show ?thesis
    by (simp add: scripted_base_run demo_base demo_second)
qed

text \<open>
  Claim C3, at an input where the code departs from it. A successful run over one
  page, whose next link is the base URL: one request, and then one delay, after the
  last page, where the claim gives no delay for a run of one page and none after the
  terminal page.
\<close>

theorem base_link_delay_after_last_page:
  "map_option (\<lambda>(r, w, tr). (r, schedule tr))
     (GetAllProgramsPaginated (stub scripted_Do demo_decode) (NewH1Client ''u'' ''t'') [ok_reply ''base''])
     = Some (([prog ''1''], None),
             [HTTPDo (request_for (NewH1Client ''u'' ''t'') ''GET'' ''/programs''), Sleep 100000000])"
  by (simp add: scripted_base_run schedule_append schedule_page_events)

subsection \<open>When the loop ends\<close>

text \<open>
  Claim C4 as stated fails twice. When a request fails, the loop ends there, whatever
  the next links of later replies are; and a server that gives every page the same
  non-empty next link, the base URL, is left after the first page.
\<close>

theorem termination_not_only_next_links:
  "map_option (\<lambda>(r, w, tr). (r, w, length (requests tr)))
     (GetAllProgramsPaginated (stub scripted_Do demo_decode) (NewH1Client ''u'' ''t'')
        [Inl ''connection refused'', ok_reply ''second''])
     = Some (([], Some ''error fetching page 1: connection refused''), [ok_reply ''second''], 1) \<and>
   UnmarshalPrograms (stub (constant_Do (ok_reply ''base'')) demo_decode) ''base''
     = Inr \<lparr>Data = [prog ''1''], Links = [''next'' \<mapsto> ''https://api.hackerone.com/v1/hackers'']\<rparr> \<and>
   has_next \<lparr>Data = [prog ''1''], Links = [''next'' \<mapsto> ''https://api.hackerone.com/v1/hackers'']\<rparr> \<and>
   map_option (\<lambda>(r, w, tr). (r, length (requests tr)))
     (GetAllProgramsPaginated (stub (constant_Do (ok_reply ''base'')) demo_decode) (NewH1Client ''u'' ''t'') ())
     = Some (([prog ''1''], None), 1)"
proof -
  let ?S = "stub scripted_Do demo_decode :: (error + http_response) list platform"
  let ?K = "stub (constant_Do (ok_reply ''base'')) demo_decode :: unit platform"
  let ?C = "NewH1Client ''u'' ''t''"
  let ?B = "\<lparr>Data = [prog ''1''], Links = [''next'' \<mapsto> ''https://api.hackerone.com/v1/hackers'']\<rparr>"
  have url: "''/programs'' \<noteq> []" by simp
  have one: "itoa (Suc 0) = ''1''" by (simp add: itoa.simps)
  have "makeRequest ?S ?C [Inl ''connection refused'', ok_reply ''second''] ''GET'' ''/programs''
      = (([], Some ''connection refused''), [ok_reply ''second''], [HTTPDo (request_for ?C ''GET'' ''/programs'')])"
    by (rule makeRequest_scripted_transport) (simp_all add: stub_def)
  from loop_fetch_fail [OF url this, of "[]" "[]" 1]
  have 1: "map_option (\<lambda>(r, w, tr). (r, w, length (requests tr)))
       (GetAllProgramsPaginated ?S ?C [Inl ''connection refused'', ok_reply ''second''])
     = Some (([], Some ''error fetching page 1: connection refused''), [ok_reply ''second''], 1)"
    by (simp add: GetAllProgramsPaginated_def one)
  have decode: "UnmarshalPrograms ?K ''base'' = Inr ?B"
    by (simp add: stub_def demo_base)
  have fetch: "makeRequest ?K ?C () ''GET'' ''/programs''
      = ((''base'', None), (), [HTTPDo (request_for ?C ''GET'' ''/programs''), ReadBody, CloseBody])"
    by (rule makeRequest_constant_ok) (simp_all add: stub_def)
  from loop_stops_at_empty_cursor [OF url fetch decode demo_base(2) demo_base(3), of "[]" "[]" 1]
  have 2: "map_option (\<lambda>(r, w, tr). (r, length (requests tr))) (GetAllProgramsPaginated ?K ?C ())
     = Some (([prog ''1''], None), 1)"
    by (simp add: GetAllProgramsPaginated_def requests_append page_events_def)
  from 1 decode demo_base(2) 2 show ?thesis
    by blast
qed

text \<open>
  Claim C4, amended. Every request is sent and answered with status 200, and every
  body decodes. When the server answers in order, each page before the last is
  followed (it has a non-empty next link, and the cursor taken from it is not empty)
  and the last page has no non-empty next link, \<^verbatim>\<open>GetAllProgramsPaginated\<close> returns after
  one request for each page. When every page the server returns has the same non-empty
  next link, and the cursor taken from that link is not empty,
  \<^verbatim>\<open>GetAllProgramsPaginated\<close> never returns, whatever else the pages hold and whatever
  the state of the server: it has no cycle guard and no page cap.
\<close>

theorem termination_follows_next_links:
  "(Do P = scripted_Do \<and> (\<forall>method url. NewRequest P method url = None) \<and>
    map (UnmarshalPrograms P) bodies = map Inr pages \<and> list_all followed pages \<and>
    UnmarshalPrograms P body = Inr final \<and> \<not> has_next final \<longrightarrow>
      (\<exists>r tr. GetAllProgramsPaginated P c (map ok_reply bodies @ ok_reply body # w) = Some (r, w, tr) \<and>
         length (requests tr) = Suc (length pages))) \<and>
   ((\<forall>method url. NewRequest Q method url = None) \<and>
    (\<forall>v req. \<exists>resp v1 body' response.
        Do Q v req = (Inr resp, v1) \<and> StatusCode resp = 200 \<and> Body resp = (body', None) \<and>
        UnmarshalPrograms Q body' = Inr response \<and> Links response ''next'' = Some link) \<and>
    link \<noteq> [] \<and> extractEndpoint link \<noteq> [] \<longrightarrow>
      GetAllProgramsPaginated Q c' u = None)"
proof (intro conjI impI)
  assume "Do P = scripted_Do \<and> (\<forall>method url. NewRequest P method url = None) \<and>
    map (UnmarshalPrograms P) bodies = map Inr pages \<and> list_all followed pages \<and>
    UnmarshalPrograms P body = Inr final \<and> \<not> has_next final"
  then have transport: "Do P = scripted_Do" and wf: "\<forall>method url. NewRequest P method url = None"
    and decoded: "map (UnmarshalPrograms P) bodies = map Inr pages" and linked: "list_all followed pages"
    and final_body: "UnmarshalPrograms P body = Inr final" and final: "\<not> has_next final"
    by simp_all
  from paginated_collects [OF transport wf decoded linked final_body final, of c w]
  obtain tr where run: "GetAllProgramsPaginated P c (map ok_reply bodies @ ok_reply body # w)
        = Some ((concat (map Data pages) @ Data final, None), w, tr)"
    and sched: "schedule tr = chain_schedule c ''/programs'' pages
        @ [HTTPDo (request_for c ''GET'' (chain_cursor ''/programs'' pages))]"
    by blast
  have "length (requests tr) = length (requests (schedule tr))"
    by (simp add: requests_schedule)
  also have "\<dots> = Suc (length pages)"
    by (simp add: sched requests_append requests_chain_schedule)
  finally show "\<exists>r tr. GetAllProgramsPaginated P c (map ok_reply bodies @ ok_reply body # w) = Some (r, w, tr) \<and>
         length (requests tr) = Suc (length pages)"
    using run by blast
next
  assume "(\<forall>method url. NewRequest Q method url = None) \<and>
    (\<forall>v req. \<exists>resp v1 body' response.
        Do Q v req = (Inr resp, v1) \<and> StatusCode resp = 200 \<and> Body resp = (body', None) \<and>
        UnmarshalPrograms Q body' = Inr response \<and> Links response ''next'' = Some link) \<and>
    link \<noteq> [] \<and> extractEndpoint link \<noteq> []"
  then have wf: "\<forall>method url. NewRequest Q method url = None"
    and server: "\<forall>v req. \<exists>resp v1 body' response.
        Do Q v req = (Inr resp, v1) \<and> StatusCode resp = 200 \<and> Body resp = (body', None) \<and>
        UnmarshalPrograms Q body' = Inr response \<and> Links response ''next'' = Some link"
    and link: "link \<noteq> []" and cursor: "extractEndpoint link \<noteq> []"
    by simp_all
  have "''/programs'' \<noteq> []" by simp
  from loop_diverges [OF wf server link cursor this]
  show "GetAllProgramsPaginated Q c' u = None"
    by (simp add: GetAllProgramsPaginated_def)
qed

theorem termination_follows_next_links_witness:
  "Do (stub scripted_Do demo_decode) = scripted_Do \<and>
   (\<forall>method url. NewRequest (stub scripted_Do demo_decode) method url = None) \<and>
   map (UnmarshalPrograms (stub scripted_Do demo_decode)) [''first'']
     = map Inr [\<lparr>Data = [prog ''1'', prog ''2''],
                  Links = [''next'' \<mapsto> ''https://api.hackerone.com/v1/hackers/programs?page=2'']\<rparr>] \<and>
   list_all followed [\<lparr>Data = [prog ''1'', prog ''2''],
                  Links = [''next'' \<mapsto> ''https://api.hackerone.com/v1/hackers/programs?page=2'']\<rparr>] \<and>
   UnmarshalPrograms (stub scripted_Do demo_decode) ''second'' = Inr \<lparr>Data = [prog ''3''], Links = Map.empty\<rparr> \<and>
   \<not> has_next \<lparr>Data = [prog ''3''], Links = Map.empty\<rparr> \<and>
   (\<exists>r tr. GetAllProgramsPaginated (stub scripted_Do demo_decode) (NewH1Client ''u'' ''t'')
              [ok_reply ''first'', ok_reply ''second''] = Some (r, [], tr) \<and>
            length (requests tr) = 2) \<and>
   (\<forall>method url. NewRequest (stub counting_Do numbered_decode) method url = None) \<and>
   (\<forall>v req. \<exists>resp v1 body' response.
       Do (stub counting_Do numbered_decode) v req = (Inr resp, v1) \<and> StatusCode resp = 200 \<and>
       Body resp = (body', None) \<and> UnmarshalPrograms (stub counting_Do numbered_decode) body' = Inr response \<and>
       Links response ''next'' = Some ''https://api.hackerone.com/v1/hackers/programs?page=2'') \<and>
   extractEndpoint ''https://api.hackerone.com/v1/hackers/programs?page=2'' = ''/programs?page=2'' \<and>
   fst (counting_Do 0 (request_for (NewH1Client ''u'' ''t'') ''GET'' ''/programs'')) = ok_reply ''0'' \<and>
   fst (counting_Do 1 (request_for (NewH1Client ''u'' ''t'') ''GET'' ''/programs?page=2'')) = ok_reply ''1'' \<and>
   GetAllProgramsPaginated (stub counting_Do numbered_decode) (NewH1Client ''u'' ''t'') 0 = None"
proof -
  let ?S = "stub scripted_Do demo_decode :: (error + http_response) list platform"
  let ?K = "stub counting_Do numbered_decode :: nat platform"
  let ?C = "NewH1Client ''u'' ''t''"
  let ?F = "\<lparr>Data = [prog ''1'', prog ''2''],
             Links = [''next'' \<mapsto> ''https://api.hackerone.com/v1/hackers/programs?page=2'']\<rparr>"
  let ?L = "\<lparr>Data = [prog ''3''], Links = Map.empty\<rparr>"
  let ?link = "''https://api.hackerone.com/v1/hackers/programs?page=2''"
  have s1: "Do ?S = scripted_Do" and s2: "\<forall>method url. NewRequest ?S method url = None"
    and s3: "map (UnmarshalPrograms ?S) [''first''] = map Inr [?F]"
    and s5: "UnmarshalPrograms ?S ''second'' = Inr ?L"
    by (simp_all add: stub_def demo_first demo_second)
  have s4: "list_all followed [?F]"
    by (simp add: demo_first)
  have k1: "\<forall>method url. NewRequest ?K method url = None"
    by (simp add: stub_def)
  have k2: "\<forall>v req. \<exists>resp v1 body' response.
       Do ?K v req = (Inr resp, v1) \<and> StatusCode resp = 200 \<and>
       Body resp = (body', None) \<and> UnmarshalPrograms ?K body' = Inr response \<and>
       Links response ''next'' = Some ?link"
    by (simp add: stub_def counting_Do_def ok_reply_def numbered_decode_def)
  have k3: "?link \<noteq> []"
    by simp
  have k4: "extractEndpoint ?link = ''/programs?page=2''"
    by (simp add: extractEndpoint_def HasPrefix_def TrimPrefix_def)
  then have k5: "extractEndpoint ?link \<noteq> []"
    by simp
  have n0: "fst (counting_Do 0 (request_for ?C ''GET'' ''/programs'')) = ok_reply ''0''"
    by (simp add: counting_Do_def itoa.simps)
  have n1: "fst (counting_Do 1 (request_for ?C ''GET'' ''/programs?page=2'')) = ok_reply ''1''"
    by (simp add: counting_Do_def itoa.simps)
  note T = termination_follows_next_links [of ?S "[''first'']" "[?F]" "''second''" ?L ?C "[]" ?K ?link ?C 0]
  from T s1 s2 s3 s4 s5 demo_second(2)
  have "\<exists>r tr. GetAllProgramsPaginated ?S ?C (map ok_reply [''first''] @ ok_reply ''second'' # []) = Some (r, [], tr) \<and>
            length (requests tr) = Suc (length [?F])"
    by blast
  then have a: "\<exists>r tr. GetAllProgramsPaginated ?S ?C [ok_reply ''first'', ok_reply ''second''] = Some (r, [], tr) \<and>
            length (requests tr) = 2"
    by (simp add: numeral_2_eq_2)
  from T k1 k2 k3 k5
  have b: "GetAllProgramsPaginated ?K ?C 0 = None"
    by blast
  from s1 s2 s3 s4 s5 demo_second(2) a k1 k2 k4 n0 n1 b show ?thesis
    by blast
qed

end
